theory Spec2Isabelle
  imports Main "HOL-Library.Multiset"
begin

section \<open>The per-thread frame callback scheduler of AChoreographer.cpp\<close>

text \<open>
  A shallow embedding of \<^verbatim>\<open>src/libs/nativedisplay/AChoreographer.cpp\<close>.
  Every member function of \<^verbatim>\<open>Choreographer\<close> becomes a function on a record of the
  object's fields. What the object does to its collaborators (the display event
  dispatcher it derives from, the looper, the client's handlers) is appended, in program
  order, to the field \<open>effects\<close>. Readings of the monotonic clock
  (\<^verbatim>\<open>systemTime(SYSTEM_TIME_MONOTONIC)\<close>) and the identity of the calling thread are
  arguments. Each member function runs as one step: the mutex \<^verbatim>\<open>mLock\<close> is not modelled.
\<close>

subsection \<open>Data\<close>

text \<open>
  Function pointers, \<^verbatim>\<open>void*\<close> and \<^verbatim>\<open>sp<Looper>\<close> are addresses, \<open>0\<close> being
  \<^verbatim>\<open>nullptr\<close>. \<^verbatim>\<open>nsecs_t\<close> is \<^verbatim>\<open>int64_t\<close>: times are integers, and the one
  sum the source computes (\<^verbatim>\<open>now + delay\<close>) is checked against the range of the type.
\<close>

type_synonym ptr = nat
type_synonym nsecs_t = int
type_synonym thread_id = nat

abbreviation nullptr :: ptr where
  "nullptr \<equiv> 0"

definition nsecs_ok :: "int \<Rightarrow> bool" where
  "nsecs_ok t \<longleftrightarrow> - (2 ^ 63) \<le> t \<and> t < 2 ^ 63"

text \<open>\<^verbatim>\<open>struct FrameCallback\<close>, lines 39-50.\<close>

record FrameCallback =
  callback :: ptr
  callback64 :: ptr
  data :: ptr
  dueTime :: nsecs_t

text \<open>\<^verbatim>\<open>struct RefreshRateCallback\<close>, lines 52-55 (the fields are prefixed: a record's
  field names are global).\<close>

record RefreshRateCallback =
  rr_callback :: ptr
  rr_data :: ptr

text \<open>\<^verbatim>\<open>ISurfaceComposer::ConfigChanged\<close>, the argument of \<^verbatim>\<open>toggleConfigEvents\<close>.\<close>

datatype ConfigChanged = eConfigChangedSuppress | eConfigChangedDispatch

text \<open>The values of \<^verbatim>\<open>Message::what\<close> the class declares (lines 64-67).\<close>

definition MSG_SCHEDULE_CALLBACKS :: int where
  "MSG_SCHEDULE_CALLBACKS = 0"

definition MSG_SCHEDULE_VSYNC :: int where
  "MSG_SCHEDULE_VSYNC = 1"

text \<open>
  The calls that leave the class. \<open>CallFrame f t d\<close> is \<^verbatim>\<open>cb.callback(t, d)\<close>,
  \<open>CallFrame64 f t d\<close> is \<^verbatim>\<open>cb.callback64(t, d)\<close> and \<open>CallRefreshRate f p d\<close> is a
  refresh rate listener's \<^verbatim>\<open>cb.callback(p, d)\<close>; each records the argument
  expressions of the source (the parameter types of the handlers are declared in
  \<^verbatim>\<open>apex/choreographer.h\<close>, which is not among the sources).
\<close>

datatype effect =
    ScheduleVsync
  | ToggleConfigEvents ConfigChanged
  | SendMessage int
  | SendMessageDelayed nsecs_t int
  | CallFrame ptr nsecs_t ptr
  | CallFrame64 ptr nsecs_t ptr
  | CallRefreshRate ptr nsecs_t ptr

text \<open>The fields of \<^verbatim>\<open>class Choreographer\<close> (lines 86-97) and the trace of its calls.
  \<^verbatim>\<open>mInternalDisplayId\<close>, which no member function reads, is left out.\<close>

record Choreographer =
  mFrameCallbacks :: "FrameCallback list"
  mRefreshRateCallbacks :: "RefreshRateCallback list"
  mVsyncPeriod :: nsecs_t
  mLooper :: ptr
  mThreadId :: thread_id
  effects :: "effect list"

text \<open>The undefined behaviours the member functions can reach: the overflow of the
  signed sum of line 128, \<^verbatim>\<open>top()\<close> of an empty queue (line 170), and the call of a
  refresh rate listener whose handler is \<^verbatim>\<open>nullptr\<close> (line 219, which has no null
  test).\<close>

datatype error = SignedOverflow | TopOfEmptyQueue | NullHandlerCall

subsection \<open>The standard containers\<close>

text \<open>
  \<^verbatim>\<open>std::priority_queue<FrameCallback>\<close> is the list of the elements it holds, in the
  order they were pushed. \<^verbatim>\<open>operator<\<close> of \<^verbatim>\<open>FrameCallback\<close> is flipped (line 48), so
  \<^verbatim>\<open>top()\<close> is an element no other is due before, and \<^verbatim>\<open>pop()\<close> removes it. Which
  of several elements with the same due time is on top is the library's business; the
  model takes the one pushed first, and no theorem below depends on that choice: they
  speak of due times, of membership and of multisets. \<^verbatim>\<open>top()\<close> of an empty queue is
  undefined: \<open>None\<close>.
\<close>

definition pq_push :: "FrameCallback \<Rightarrow> FrameCallback list \<Rightarrow> FrameCallback list" where
  "pq_push c q = q @ [c]"

fun pq_top :: "FrameCallback list \<Rightarrow> FrameCallback option" where
  "pq_top [] = None"
| "pq_top (x # xs) =
     (case pq_top xs of
        None \<Rightarrow> Some x
      | Some y \<Rightarrow> if dueTime x \<le> dueTime y then Some x else Some y)"

definition pq_pop :: "FrameCallback list \<Rightarrow> FrameCallback list" where
  "pq_pop q = (case pq_top q of None \<Rightarrow> q | Some c \<Rightarrow> remove1 c q)"

text \<open>
  \<^verbatim>\<open>std::remove_if(first, last, pred)\<close> on a vector of trivially copyable elements: the
  elements that do not satisfy \<open>pred\<close> are moved to the front, in their order; the
  positions behind them keep what they held; the vector keeps its size. (The iterator
  the algorithm returns, the end of the kept elements, is what the caller would pass to
  \<^verbatim>\<open>erase\<close>.)
\<close>

definition remove_if :: "('a \<Rightarrow> bool) \<Rightarrow> 'a list \<Rightarrow> 'a list" where
  "remove_if pred xs =
     (let kept = filter (\<lambda>x. \<not> pred x) xs in kept @ drop (length kept) xs)"

subsection \<open>The member functions\<close>

text \<open>\<^verbatim>\<open>scheduleVsync()\<close> and \<^verbatim>\<open>toggleConfigEvents()\<close> are inherited from
  \<^verbatim>\<open>DisplayEventDispatcher\<close>, which is not among the sources; what they do is not
  modelled, and a call of either is recorded as an effect. So are the looper's
  \<^verbatim>\<open>sendMessage\<close> and \<^verbatim>\<open>sendMessageDelayed\<close>.\<close>

definition emit :: "effect \<Rightarrow> Choreographer \<Rightarrow> Choreographer" where
  "emit e s = s\<lparr>effects := effects s @ [e]\<rparr>"

definition scheduleVsync :: "Choreographer \<Rightarrow> Choreographer" where
  "scheduleVsync s = emit ScheduleVsync s"

definition toggleConfigEvents :: "ConfigChanged \<Rightarrow> Choreographer \<Rightarrow> Choreographer" where
  "toggleConfigEvents flag s = emit (ToggleConfigEvents flag) s"

text \<open>
  \<^verbatim>\<open>postFrameCallbackDelayed\<close>, lines 125-144. \<open>caller\<close> is
  \<^verbatim>\<open>std::this_thread::get_id()\<close> and \<open>now\<close> the clock reading of line 127.
\<close>

definition postFrameCallbackDelayed ::
  "thread_id \<Rightarrow> ptr \<Rightarrow> ptr \<Rightarrow> ptr \<Rightarrow> nsecs_t \<Rightarrow> nsecs_t \<Rightarrow> Choreographer \<Rightarrow> error + Choreographer"
where
  "postFrameCallbackDelayed caller cb cb64 dat delay now s =
     (if \<not> nsecs_ok (now + delay) then Inl SignedOverflow
      else
        let cbk = \<lparr>callback = cb, callback64 = cb64, data = dat, dueTime = now + delay\<rparr>;
            s1 = s\<lparr>mFrameCallbacks := pq_push cbk (mFrameCallbacks s)\<rparr>
        in Inr (if dueTime cbk \<le> now
                then (if caller \<noteq> mThreadId s1
                      then emit (SendMessage MSG_SCHEDULE_VSYNC) s1
                      else scheduleVsync s1)
                else emit (SendMessageDelayed delay MSG_SCHEDULE_CALLBACKS) s1))"

text \<open>\<^verbatim>\<open>registerRefreshRateCallback\<close>, lines 146-152.\<close>

definition registerRefreshRateCallback :: "ptr \<Rightarrow> ptr \<Rightarrow> Choreographer \<Rightarrow> Choreographer" where
  "registerRefreshRateCallback cb dat s =
     toggleConfigEvents eConfigChangedDispatch
       (s\<lparr>mRefreshRateCallbacks :=
            mRefreshRateCallbacks s @ [\<lparr>rr_callback = cb, rr_data = dat\<rparr>]\<rparr>)"

text \<open>\<^verbatim>\<open>unregisterRefreshRateCallback\<close>, lines 154-165. The result of
  \<^verbatim>\<open>std::remove_if\<close> is dropped and nothing is erased.\<close>

definition unregisterRefreshRateCallback :: "ptr \<Rightarrow> Choreographer \<Rightarrow> Choreographer" where
  "unregisterRefreshRateCallback cb s =
     (let s1 = s\<lparr>mRefreshRateCallbacks :=
                   remove_if (\<lambda>c. cb = rr_callback c) (mRefreshRateCallbacks s)\<rparr>
      in if mRefreshRateCallbacks s1 = []
         then toggleConfigEvents eConfigChangedSuppress s1
         else s1)"

text \<open>\<^verbatim>\<open>scheduleCallbacks\<close>, lines 167-175: \<^verbatim>\<open>top()\<close> is read with no test of
  \<^verbatim>\<open>empty()\<close>.\<close>

definition scheduleCallbacks :: "nsecs_t \<Rightarrow> Choreographer \<Rightarrow> error + Choreographer" where
  "scheduleCallbacks now s =
     (case pq_top (mFrameCallbacks s) of
        None \<Rightarrow> Inl TopOfEmptyQueue
      | Some c \<Rightarrow> if dueTime c \<le> now then Inr (scheduleVsync s) else Inr s)"

text \<open>
  The loop of \<^verbatim>\<open>dispatchVsync\<close>, lines 185-188: \<open>q\<close> is \<^verbatim>\<open>mFrameCallbacks\<close>,
  \<open>cbs\<close> the local vector \<^verbatim>\<open>callbacks\<close>. An empty queue ends the loop before
  \<^verbatim>\<open>top()\<close> is read.
\<close>

function drain :: "nsecs_t \<Rightarrow> FrameCallback list \<Rightarrow> FrameCallback list
    \<Rightarrow> FrameCallback list \<times> FrameCallback list" where
  "drain now q cbs =
     (case pq_top q of
        None \<Rightarrow> (cbs, q)
      | Some c \<Rightarrow> if dueTime c < now then drain now (pq_pop q) (cbs @ [c]) else (cbs, q))"
  by pat_completeness auto

termination drain
proof (relation "measure (\<lambda>(now, q, cbs). length q)")
  show "wf (measure (\<lambda>(now, q, cbs). length q))"
    by simp
next
  fix now :: nsecs_t and q cbs :: "FrameCallback list" and c :: FrameCallback
  assume top: "pq_top q = Some c"
  have mem: "pq_top xs = Some y \<Longrightarrow> y \<in> set xs" for xs y
    by (induction xs arbitrary: y) (auto split: option.splits if_splits)
  from mem [OF top] have "length (remove1 c q) < length q"
    using length_pos_if_in_set [of c q] by (simp add: length_remove1)
  with top show "((now, pq_pop q, cbs @ [c]), (now, q, cbs)) \<in> measure (\<lambda>(now, q, cbs). length q)"
    by (simp add: pq_pop_def)
qed

declare drain.simps [simp del]

text \<open>The body of the second loop, lines 191-195.\<close>

definition invoke :: "nsecs_t \<Rightarrow> FrameCallback \<Rightarrow> effect list" where
  "invoke timestamp cb =
     (if callback64 cb \<noteq> nullptr then [CallFrame64 (callback64 cb) timestamp (data cb)]
      else if callback cb \<noteq> nullptr then [CallFrame (callback cb) timestamp (data cb)]
      else [])"

text \<open>
  \<^verbatim>\<open>dispatchVsync\<close>, lines 180-197. \<open>timestamp\<close> is the argument; \<open>now\<close> is the clock
  reading of line 184, which is what the due times are compared with.
\<close>

definition dispatchVsync :: "nsecs_t \<Rightarrow> nsecs_t \<Rightarrow> Choreographer \<Rightarrow> Choreographer" where
  "dispatchVsync timestamp now s =
     (let (cbs, q) = drain now (mFrameCallbacks s) []
      in s\<lparr>mFrameCallbacks := q,
            effects := effects s @ concat (map (invoke timestamp) cbs)\<rparr>)"

text \<open>The loop of \<^verbatim>\<open>dispatchConfigChanged\<close>, lines 214-222, over the listeners left.
  The handler is called with no null test: calling a null handler ends the run.\<close>

fun notify :: "nsecs_t \<Rightarrow> RefreshRateCallback list \<Rightarrow> Choreographer \<Rightarrow> error + Choreographer" where
  "notify vsyncPeriod [] s = Inr s"
| "notify vsyncPeriod (cb # rest) s =
     (if mVsyncPeriod s \<noteq> vsyncPeriod
      then (if rr_callback cb = nullptr then Inl NullHandlerCall
            else notify vsyncPeriod rest
                   ((emit (CallRefreshRate (rr_callback cb) vsyncPeriod (rr_data cb)) s)
                      \<lparr>mVsyncPeriod := vsyncPeriod\<rparr>))
      else notify vsyncPeriod rest s)"

text \<open>\<^verbatim>\<open>dispatchConfigChanged\<close>, lines 210-224.\<close>

definition dispatchConfigChanged :: "nsecs_t \<Rightarrow> Choreographer \<Rightarrow> error + Choreographer" where
  "dispatchConfigChanged vsyncPeriod s = notify vsyncPeriod (mRefreshRateCallbacks s) s"

text \<open>\<^verbatim>\<open>handleMessage\<close>, lines 226-235; \<open>what\<close> is \<^verbatim>\<open>message.what\<close>.\<close>

definition handleMessage :: "int \<Rightarrow> nsecs_t \<Rightarrow> Choreographer \<Rightarrow> error + Choreographer" where
  "handleMessage what now s =
     (if what = MSG_SCHEDULE_CALLBACKS then scheduleCallbacks now s
      else if what = MSG_SCHEDULE_VSYNC then Inr (scheduleVsync s)
      else Inr s)"

subsection \<open>The scheduler of a thread\<close>

text \<open>
  The state \<^verbatim>\<open>getForThread\<close> works on: the \<^verbatim>\<open>thread_local\<close> variable
  \<^verbatim>\<open>gChoreographer\<close> (line 101), one slot per thread and \<^verbatim>\<open>nullptr\<close> at first; the
  objects \<^verbatim>\<open>new\<close> has made, each as its constructor left it and none ever deleted
  (the object at address \<open>k\<close> is the \<open>k\<close>-th of the list, so a new object has an address
  no other has); and the calls of \<^verbatim>\<open>initialize()\<close>, each with the object and the status
  it returned.
\<close>

record Process =
  gChoreographer :: "thread_id \<Rightarrow> ptr"
  objects :: "Choreographer list"
  initialize_calls :: "(ptr \<times> int) list"

definition OK :: int where
  "OK = 0"

text \<open>The constructor, lines 119-123, with the default member initialisers.\<close>

definition new_Choreographer :: "ptr \<Rightarrow> thread_id \<Rightarrow> Choreographer" where
  "new_Choreographer looper tid =
     \<lparr>mFrameCallbacks = [], mRefreshRateCallbacks = [], mVsyncPeriod = 0,
      mLooper = looper, mThreadId = tid, effects = []\<rparr>"

text \<open>
  \<^verbatim>\<open>getForThread\<close>, lines 102-117, called on thread \<open>tid\<close>. \<open>looper\<close> is what
  \<^verbatim>\<open>Looper::getForThread()\<close> returns there and \<open>result\<close> what \<^verbatim>\<open>initialize()\<close>
  (inherited from \<^verbatim>\<open>DisplayEventDispatcher\<close>) returns for the new object.
\<close>

definition getForThread :: "thread_id \<Rightarrow> ptr \<Rightarrow> int \<Rightarrow> Process \<Rightarrow> ptr \<times> Process" where
  "getForThread tid looper result g =
     (if gChoreographer g tid = nullptr then
        (if looper = nullptr then (nullptr, g)
         else
           let p = Suc (length (objects g));
               g1 = g\<lparr>objects := objects g @ [new_Choreographer looper tid],
                      gChoreographer := (gChoreographer g)(tid := p)\<rparr>;
               g2 = g1\<lparr>initialize_calls := initialize_calls g1 @ [(p, result)]\<rparr>
           in if result \<noteq> OK then (nullptr, g2) else (gChoreographer g2 tid, g2))
      else (gChoreographer g tid, g))"

text \<open>A process before any call: every slot is \<^verbatim>\<open>nullptr\<close> and no object exists.\<close>

definition initial_process :: Process where
  "initial_process = \<lparr>gChoreographer = (\<lambda>t. nullptr), objects = [], initialize_calls = []\<rparr>"

text \<open>What every process reached from \<open>initial_process\<close> satisfies: a slot holds
  \<^verbatim>\<open>nullptr\<close> or the address of an object, no two threads hold the same object, and
  \<^verbatim>\<open>initialize()\<close> was called on objects only.\<close>

definition process_ok :: "Process \<Rightarrow> bool" where
  "process_ok g \<longleftrightarrow>
     (\<forall>t. gChoreographer g t \<le> length (objects g)) \<and>
     (\<forall>t u. gChoreographer g t = gChoreographer g u \<and> gChoreographer g t \<noteq> nullptr \<longrightarrow> t = u) \<and>
     (\<forall>c \<in> set (initialize_calls g). fst c \<le> length (objects g))"

text \<open>A run of calls, each a thread with what its looper lookup and its
  \<^verbatim>\<open>initialize()\<close> would return.\<close>

fun getForThread_calls :: "(thread_id \<times> ptr \<times> int) list \<Rightarrow> Process \<Rightarrow> Process" where
  "getForThread_calls [] g = g"
| "getForThread_calls ((tid, looper, result) # cs) g =
     getForThread_calls cs (snd (getForThread tid looper result g))"

text \<open>A run of vsync deliveries, each a timestamp with the clock reading at its
  dispatch, and the callbacks the run drains, each with the timestamp its handler is
  called with.\<close>

fun dispatchVsyncs :: "(nsecs_t \<times> nsecs_t) list \<Rightarrow> Choreographer \<Rightarrow> Choreographer" where
  "dispatchVsyncs [] s = s"
| "dispatchVsyncs ((timestamp, now) # vs) s = dispatchVsyncs vs (dispatchVsync timestamp now s)"

fun drained_by :: "(nsecs_t \<times> nsecs_t) list \<Rightarrow> Choreographer \<Rightarrow> (nsecs_t \<times> FrameCallback) list" where
  "drained_by [] s = []"
| "drained_by ((timestamp, now) # vs) s =
     map (Pair timestamp) (fst (drain now (mFrameCallbacks s) []))
       @ drained_by vs (dispatchVsync timestamp now s)"

text \<open>A run of registrations, each a handler with its data.\<close>

fun registerRefreshRateCallbacks :: "(ptr \<times> ptr) list \<Rightarrow> Choreographer \<Rightarrow> Choreographer" where
  "registerRefreshRateCallbacks [] s = s"
| "registerRefreshRateCallbacks ((cb, dat) # rs) s =
     registerRefreshRateCallbacks rs (registerRefreshRateCallback cb dat s)"

section \<open>Properties\<close>

subsection \<open>The queue and the loop that drains it\<close>

lemma pq_top_None_iff: "pq_top q = None \<longleftrightarrow> q = []"
  by (cases q) (auto split: option.splits)

lemma pq_top_mem: "pq_top q = Some c \<Longrightarrow> c \<in> set q"
  by (induction q arbitrary: c) (auto split: option.splits if_splits)

lemma pq_top_least: "pq_top q = Some c \<Longrightarrow> x \<in> set q \<Longrightarrow> dueTime c \<le> dueTime x"
  by (induction q arbitrary: c) (auto split: option.splits if_splits simp: pq_top_None_iff)

lemma mset_pq_pop: "pq_top q = Some c \<Longrightarrow> mset (pq_pop q) = mset q - {#c#}"
  by (simp add: pq_pop_def)

lemma drain_empty: "pq_top q = None \<Longrightarrow> drain now q cbs = (cbs, q)"
  by (subst drain.simps) simp

lemma drain_due: "pq_top q = Some c \<Longrightarrow> dueTime c < now
    \<Longrightarrow> drain now q cbs = drain now (pq_pop q) (cbs @ [c])"
  by (subst drain.simps) simp

lemma drain_not_due: "pq_top q = Some c \<Longrightarrow> \<not> dueTime c < now \<Longrightarrow> drain now q cbs = (cbs, q)"
  by (subst drain.simps) simp

lemma drain_batch_mset:
  "mset (fst (drain now q cbs)) = mset cbs + filter_mset (\<lambda>c. dueTime c < now) (mset q)"
proof (induction now q cbs rule: drain.induct)
  case (1 now q cbs)
  show ?case
  proof (cases "pq_top q")
    case None
    then show ?thesis by (simp add: drain_empty pq_top_None_iff)
  next
    case (Some c)
    show ?thesis
    proof (cases "dueTime c < now")
      case True
      have "c \<in># mset q" using pq_top_mem [OF Some] by simp
      then have "mset q = add_mset c (mset q - {#c#})" by simp
      then have "filter_mset (\<lambda>c. dueTime c < now) (mset q) =
          add_mset c (filter_mset (\<lambda>c. dueTime c < now) (mset q - {#c#}))"
        using True by (metis filter_mset_add_mset)
      then show ?thesis
        using "1.IH" [OF Some True] Some True
        by (simp add: mset_pq_pop drain_due)
    next
      case False
      have "\<forall>x \<in># mset q. \<not> dueTime x < now"
        using pq_top_least [OF Some] False by fastforce
      then have "filter_mset (\<lambda>c. dueTime c < now) (mset q) = {#}"
        by simp
      then show ?thesis using Some False by (simp add: drain_not_due)
    qed
  qed
qed

lemma drain_rest_mset:
  "mset (snd (drain now q cbs)) = filter_mset (\<lambda>c. \<not> dueTime c < now) (mset q)"
proof (induction now q cbs rule: drain.induct)
  case (1 now q cbs)
  show ?case
  proof (cases "pq_top q")
    case None
    then show ?thesis by (simp add: drain_empty pq_top_None_iff)
  next
    case (Some c)
    show ?thesis
    proof (cases "dueTime c < now")
      case True
      have "c \<in># mset q" using pq_top_mem [OF Some] by simp
      then have "mset q = add_mset c (mset q - {#c#})" by simp
      then have "filter_mset (\<lambda>c. \<not> dueTime c < now) (mset q) =
          filter_mset (\<lambda>c. \<not> dueTime c < now) (mset q - {#c#})"
        using True by (metis filter_mset_add_mset)
      then show ?thesis
        using "1.IH" [OF Some True] Some True
        by (simp add: mset_pq_pop drain_due)
    next
      case False
      have "\<forall>x \<in># mset q. \<not> dueTime x < now"
        using pq_top_least [OF Some] False by fastforce
      then have "filter_mset (\<lambda>c. \<not> dueTime c < now) (mset q) = mset q"
        by (simp add: filter_mset_eq_conv)
      then show ?thesis using Some False by (simp add: drain_not_due)
    qed
  qed
qed

lemma drain_batch_sorted:
  "sorted (map dueTime cbs) \<Longrightarrow> (\<forall>a \<in> set cbs. \<forall>x \<in> set q. dueTime a \<le> dueTime x)
     \<Longrightarrow> sorted (map dueTime (fst (drain now q cbs)))"
proof (induction now q cbs rule: drain.induct)
  case (1 now q cbs)
  show ?case
  proof (cases "pq_top q")
    case None
    then show ?thesis using "1.prems" by (simp add: drain_empty)
  next
    case (Some c)
    show ?thesis
    proof (cases "dueTime c < now")
      case True
      have cq: "c \<in> set q" by (rule pq_top_mem [OF Some])
      have sub: "set (pq_pop q) \<subseteq> set q"
        using Some set_remove1_subset [of c q] by (simp add: pq_pop_def)
      have s1: "sorted (map dueTime (cbs @ [c]))"
        using "1.prems" cq by (auto simp: sorted_append)
      have s2: "\<forall>a \<in> set (cbs @ [c]). \<forall>x \<in> set (pq_pop q). dueTime a \<le> dueTime x"
        using "1.prems"(2) sub pq_top_least [OF Some] by auto
      show ?thesis
        using "1.IH" [OF Some True s1 s2] Some True by (simp add: drain_due)
    next
      case False
      then show ?thesis using Some "1.prems" by (simp add: drain_not_due)
    qed
  qed
qed

lemma drain_batch_set:
  "set (fst (drain now q [])) = {c \<in> set q. dueTime c < now}"
proof -
  have "set_mset (mset (fst (drain now q []))) = set_mset (filter_mset (\<lambda>c. dueTime c < now) (mset q))"
    by (simp only: drain_batch_mset) simp
  then show ?thesis by simp
qed

lemma drain_rest_set:
  "set (snd (drain now q cbs)) = {c \<in> set q. \<not> dueTime c < now}"
proof -
  have "set_mset (mset (snd (drain now q cbs))) = set_mset (filter_mset (\<lambda>c. \<not> dueTime c < now) (mset q))"
    by (simp only: drain_rest_mset)
  then show ?thesis by simp
qed

lemma dispatchVsync_queue:
  "mFrameCallbacks (dispatchVsync timestamp now s) = snd (drain now (mFrameCallbacks s) [])"
  by (simp add: dispatchVsync_def split: prod.splits)

lemma dispatchVsync_effects:
  "effects (dispatchVsync timestamp now s) =
     effects s @ concat (map (invoke timestamp) (fst (drain now (mFrameCallbacks s) [])))"
  by (simp add: dispatchVsync_def split: prod.splits)

subsection \<open>Vsync delivery\<close>

text \<open>
  C3, as the code has it. \<^verbatim>\<open>dispatchVsync(timestamp)\<close>, run at the clock reading
  \<open>now\<close>, removes from the queue exactly the callbacks due strictly before \<open>now\<close> (the
  clock, not the timestamp of the vsync): the batch \<open>cbs\<close> is ordered by due time and
  holds those callbacks, each as often as the queue did; the others stay queued. The
  handlers of the batch are then called in that order with \<open>timestamp\<close>, each callback
  as \<open>invoke\<close> has it. In particular, when every queued callback is due before \<open>now\<close>,
  one vsync dispatches them all, in non-decreasing order of due time, and leaves the queue
  empty.
\<close>

theorem dispatchVsync_drains_due_before_now:
  "let cbs = fst (drain now (mFrameCallbacks s) []);
       s' = dispatchVsync timestamp now s
   in sorted (map dueTime cbs)
    \<and> mset cbs = filter_mset (\<lambda>c. dueTime c < now) (mset (mFrameCallbacks s))
    \<and> mset (mFrameCallbacks s') = filter_mset (\<lambda>c. \<not> dueTime c < now) (mset (mFrameCallbacks s))
    \<and> effects s' = effects s @ concat (map (invoke timestamp) cbs)
    \<and> ((\<forall>c \<in> set (mFrameCallbacks s). dueTime c < now)
         \<longrightarrow> mset cbs = mset (mFrameCallbacks s) \<and> mFrameCallbacks s' = [])"
proof -
  let ?q = "mFrameCallbacks s"
  have a: "sorted (map dueTime (fst (drain now ?q [])))"
    by (rule drain_batch_sorted) simp_all
  have b: "mset (fst (drain now ?q [])) = filter_mset (\<lambda>c. dueTime c < now) (mset ?q)"
    by (simp add: drain_batch_mset)
  have c: "mset (mFrameCallbacks (dispatchVsync timestamp now s)) =
      filter_mset (\<lambda>c. \<not> dueTime c < now) (mset ?q)"
    by (simp add: dispatchVsync_queue drain_rest_mset)
  have d: "mset (fst (drain now ?q [])) = mset ?q
      \<and> mFrameCallbacks (dispatchVsync timestamp now s) = []"
    if all: "\<forall>c \<in> set ?q. dueTime c < now"
  proof -
    from all have "filter_mset (\<lambda>c. dueTime c < now) (mset ?q) = mset ?q"
      by (simp add: filter_mset_eq_conv)
    moreover from all have "filter_mset (\<lambda>c. \<not> dueTime c < now) (mset ?q) = {#}"
      by simp
    ultimately show ?thesis using b c by (simp del: filter_mset_eq_mempty_iff)
  qed
  show ?thesis
    unfolding Let_def using a b c d dispatchVsync_effects by blast
qed

text \<open>Three callbacks due at 0, 5 and 10, pushed out of order, and a vsync with
  timestamp 11 dispatched at 12.\<close>

theorem dispatchVsync_drains_due_before_now_witness:
  "let s = (new_Choreographer 1 1)\<lparr>mFrameCallbacks :=
        [\<lparr>callback = 3, callback64 = nullptr, data = 30, dueTime = 10\<rparr>,
         \<lparr>callback = 1, callback64 = nullptr, data = 10, dueTime = 0\<rparr>,
         \<lparr>callback = nullptr, callback64 = 2, data = 20, dueTime = 5\<rparr>]\<rparr>;
       s' = dispatchVsync 11 12 s
   in list_all (\<lambda>c. dueTime c < 12) (mFrameCallbacks s)
    \<and> mFrameCallbacks s' = []
    \<and> effects s' = [CallFrame 1 11 10, CallFrame64 2 11 20, CallFrame 3 11 30]"
  using dispatchVsync_drains_due_before_now
    [of 12 "(new_Choreographer 1 1)\<lparr>mFrameCallbacks :=
        [\<lparr>callback = 3, callback64 = nullptr, data = 30, dueTime = 10\<rparr>,
         \<lparr>callback = 1, callback64 = nullptr, data = 10, dueTime = 0\<rparr>,
         \<lparr>callback = nullptr, callback64 = 2, data = 20, dueTime = 5\<rparr>]\<rparr>" 11]
  by (simp add: new_Choreographer_def dispatchVsync_def invoke_def pq_pop_def drain.simps)

text \<open>
  C3 as the claim states it fails. A vsync with timestamp 3 dispatched at 10 removes and
  calls a callback due at 5, which is not before the timestamp. A vsync with timestamp 5
  dispatched at 5 leaves a callback due at 5 in the queue, although the timestamp is not
  before the latest due time. And a callback with no handler, due at 1, is removed by a
  vsync dispatched at 10 with nothing called.
\<close>

theorem dispatchVsync_timestamp_counterexample:
  "mFrameCallbacks (dispatchVsync 3 10 ((new_Choreographer 1 1)\<lparr>mFrameCallbacks :=
        [\<lparr>callback = 1, callback64 = nullptr, data = 7, dueTime = 5\<rparr>]\<rparr>)) = []
   \<and> effects (dispatchVsync 3 10 ((new_Choreographer 1 1)\<lparr>mFrameCallbacks :=
        [\<lparr>callback = 1, callback64 = nullptr, data = 7, dueTime = 5\<rparr>]\<rparr>)) = [CallFrame 1 3 7]
   \<and> \<not> dueTime \<lparr>callback = 1, callback64 = nullptr, data = 7, dueTime = 5\<rparr> < 3
   \<and> mFrameCallbacks (dispatchVsync 5 5 ((new_Choreographer 1 1)\<lparr>mFrameCallbacks :=
        [\<lparr>callback = 1, callback64 = nullptr, data = 7, dueTime = 5\<rparr>]\<rparr>))
        = [\<lparr>callback = 1, callback64 = nullptr, data = 7, dueTime = 5\<rparr>]
   \<and> effects (dispatchVsync 5 5 ((new_Choreographer 1 1)\<lparr>mFrameCallbacks :=
        [\<lparr>callback = 1, callback64 = nullptr, data = 7, dueTime = 5\<rparr>]\<rparr>)) = []
   \<and> mFrameCallbacks (dispatchVsync 3 10 ((new_Choreographer 1 1)\<lparr>mFrameCallbacks :=
        [\<lparr>callback = nullptr, callback64 = nullptr, data = 7, dueTime = 1\<rparr>]\<rparr>)) = []
   \<and> effects (dispatchVsync 3 10 ((new_Choreographer 1 1)\<lparr>mFrameCallbacks :=
        [\<lparr>callback = nullptr, callback64 = nullptr, data = 7, dueTime = 1\<rparr>]\<rparr>)) = []"
  by (simp add: new_Choreographer_def dispatchVsync_def invoke_def pq_pop_def drain.simps)

subsection \<open>Posting a frame callback\<close>

lemma postFrameCallbackDelayed_queue:
  "postFrameCallbackDelayed caller cb cb64 dat delay now s = Inr s1 \<Longrightarrow>
     mFrameCallbacks s1 =
       mFrameCallbacks s @ [\<lparr>callback = cb, callback64 = cb64, data = dat, dueTime = now + delay\<rparr>]"
  by (auto simp: postFrameCallbackDelayed_def Let_def pq_push_def emit_def scheduleVsync_def
      split: if_splits)

lemma drained_by_due:
  "(t, c) \<in> set (drained_by vs s) \<Longrightarrow> \<exists>(timestamp, now) \<in> set vs. dueTime c < now"
proof (induction vs arbitrary: s)
  case Nil
  then show ?case by simp
next
  case (Cons v vs)
  obtain timestamp now where v: "v = (timestamp, now)" by (cases v)
  from Cons.prems consider
      "c \<in> set (fst (drain now (mFrameCallbacks s) []))"
    | "(t, c) \<in> set (drained_by vs (dispatchVsync timestamp now s))"
    by (auto simp: v)
  then show ?case
  proof cases
    case 1
    then show ?thesis by (simp add: drain_batch_set v)
  next
    case 2
    from Cons.IH [OF 2] show ?thesis by auto
  qed
qed

lemma dispatchVsyncs_keeps:
  "c \<in> set (mFrameCallbacks s) \<Longrightarrow> \<forall>(timestamp, now) \<in> set vs. now \<le> dueTime c
     \<Longrightarrow> c \<in> set (mFrameCallbacks (dispatchVsyncs vs s))"
proof (induction vs arbitrary: s)
  case Nil
  then show ?case by simp
next
  case (Cons v vs)
  obtain timestamp now where v: "v = (timestamp, now)" by (cases v)
  have "c \<in> set (mFrameCallbacks (dispatchVsync timestamp now s))"
    using Cons.prems by (simp add: dispatchVsync_queue drain_rest_set v)
  then show ?case
    using Cons.IH [of "dispatchVsync timestamp now s"] Cons.prems(2) by (simp add: v)
qed

lemma dispatchVsyncs_effects:
  "effects (dispatchVsyncs vs s) =
     effects s @ concat (map (\<lambda>(t, c). invoke t c) (drained_by vs s))"
proof (induction vs arbitrary: s)
  case Nil
  then show ?case by simp
next
  case (Cons v vs)
  obtain timestamp now where v: "v = (timestamp, now)" by (cases v)
  show ?case
    by (simp add: v Cons.IH dispatchVsync_effects comp_def)
qed

text \<open>
  C5, with the range the code needs. A callback posted with a delay \<open>d > 0\<close> at the clock
  reading \<open>now\<close>, where \<open>now + d\<close> is a value of \<^verbatim>\<open>nsecs_t\<close>, is queued and is due at
  \<open>now + d\<close>. Whatever vsyncs are dispatched at clock readings up to \<open>now + d\<close>, the
  callback is in none of their batches and is still queued after them; the handlers the
  run calls are those of the batches, so the callback's is not called before
  \<open>now + d\<close>.
\<close>

theorem delayed_callback_waits_for_due_time:
  assumes range: "nsecs_ok (now + delay)"
    and delay: "0 < delay"
    and early: "\<forall>(timestamp, t) \<in> set vs. t \<le> now + delay"
  shows "\<exists>s1. postFrameCallbackDelayed caller cb cb64 dat delay now s = Inr s1
          \<and> (let c = \<lparr>callback = cb, callback64 = cb64, data = dat, dueTime = now + delay\<rparr>;
                   s2 = dispatchVsyncs vs s1
               in mset (mFrameCallbacks s1) = add_mset c (mset (mFrameCallbacks s))
                \<and> c \<in> set (mFrameCallbacks s1)
                \<and> c \<notin> snd ` set (drained_by vs s1)
                \<and> c \<in> set (mFrameCallbacks s2)
                \<and> effects s2 =
                    effects s1 @ concat (map (\<lambda>(t, c'). invoke t c') (drained_by vs s1)))"
proof -
  let ?c = "\<lparr>callback = cb, callback64 = cb64, data = dat, dueTime = now + delay\<rparr>"
  from range obtain s1
    where post: "postFrameCallbackDelayed caller cb cb64 dat delay now s = Inr s1"
    by (simp add: postFrameCallbackDelayed_def Let_def)
  have q: "mFrameCallbacks s1 = mFrameCallbacks s @ [?c]"
    by (rule postFrameCallbackDelayed_queue [OF post])
  have queued: "?c \<in> set (mFrameCallbacks s1)"
    by (simp add: q)
  have "?c \<notin> snd ` set (drained_by vs s1)"
  proof
    assume "?c \<in> snd ` set (drained_by vs s1)"
    then obtain t where "(t, ?c) \<in> set (drained_by vs s1)" by auto
    from drained_by_due [OF this] obtain timestamp n
      where "(timestamp, n) \<in> set vs" and "dueTime ?c < n" by auto
    with early show False by auto
  qed
  moreover have "?c \<in> set (mFrameCallbacks (dispatchVsyncs vs s1))"
    using queued early by (intro dispatchVsyncs_keeps) auto
  ultimately show ?thesis
    using post q queued dispatchVsyncs_effects [of vs s1] by (simp add: Let_def)
qed

text \<open>A scheduler with a callback due at 50 in its queue; a second one is posted at 100
  with delay 5. Vsyncs dispatched at 102 and at 105 call the handler of the first and
  leave the second queued.\<close>

theorem delayed_callback_waits_for_due_time_witness:
  "let old = \<lparr>callback = 8, callback64 = nullptr, data = 3, dueTime = 50\<rparr>;
       c = \<lparr>callback = 9, callback64 = nullptr, data = 4, dueTime = 100 + 5\<rparr>;
       s = (new_Choreographer 1 1)\<lparr>mFrameCallbacks := [old]\<rparr>;
       s1 = s\<lparr>mFrameCallbacks := [old, c],
               effects := [SendMessageDelayed 5 MSG_SCHEDULE_CALLBACKS]\<rparr>;
       s2 = dispatchVsyncs [(101, 102), (104, 105)] s1
   in nsecs_ok (100 + 5)
    \<and> postFrameCallbackDelayed 1 9 nullptr 4 5 100 s = Inr s1
    \<and> mFrameCallbacks s2 = [c]
    \<and> effects s2 = effects s1 @ [CallFrame 8 101 3]"
proof -
  have range: "nsecs_ok (100 + 5)"
    by (simp add: nsecs_ok_def)
  have delay: "(0::int) < 5"
    by simp
  have early: "\<forall>(timestamp, t) \<in> set [(101, 102), (104, 105::int)]. t \<le> 100 + 5"
    by simp
  show ?thesis
    using delayed_callback_waits_for_due_time [OF range delay early, of 1 9 nullptr 4
        "(new_Choreographer 1 1)\<lparr>mFrameCallbacks :=
           [\<lparr>callback = 8, callback64 = nullptr, data = 3, dueTime = 50\<rparr>]\<rparr>"]
    by (simp add: Let_def nsecs_ok_def postFrameCallbackDelayed_def new_Choreographer_def
        pq_push_def emit_def dispatchVsync_def drain.simps pq_pop_def invoke_def)
qed

text \<open>
  C5 as the claim states it, for every delay \<open>d > 0\<close>, fails. The delay 9223372036854
  ms, which \<^verbatim>\<open>AChoreographer_postFrameCallbackDelayed\<close> passes on as 9223372036854000000
  ns, posted at the clock reading 1000000: the sum of line 128 is above the greatest
  \<^verbatim>\<open>nsecs_t\<close>, the signed addition overflows, and no callback due at \<open>now + d\<close> is
  queued. (Where the sum wraps, the due time is negative and the next vsync calls the
  handler.)
\<close>

theorem delayed_callback_overflow_counterexample:
  "(0::int) < 9223372036854000000
   \<and> nsecs_ok 1000000 \<and> nsecs_ok 9223372036854000000
   \<and> \<not> nsecs_ok (1000000 + 9223372036854000000)
   \<and> postFrameCallbackDelayed 1 9 nullptr 4 9223372036854000000 1000000 (new_Choreographer 1 1)
       = Inl SignedOverflow"
  by (simp add: postFrameCallbackDelayed_def nsecs_ok_def)

text \<open>
  C6, with the range the code needs. Where \<open>now + delay\<close> is a value of \<^verbatim>\<open>nsecs_t\<close>,
  \<^verbatim>\<open>postFrameCallbackDelayed\<close> returns; the queue has gained the callback, due at
  \<open>now + delay\<close>, and holds what it held; and the call has done one thing more. With
  \<open>delay \<le> 0\<close> it has called \<^verbatim>\<open>scheduleVsync()\<close> when the caller is the owning thread,
  and sent \<^verbatim>\<open>MSG_SCHEDULE_VSYNC\<close> to the looper otherwise. With \<open>delay > 0\<close> it has sent
  \<^verbatim>\<open>MSG_SCHEDULE_CALLBACKS\<close> delayed by \<open>delay\<close>, and requested no vsync. The listeners,
  the stored period, the looper and the owning thread are as they were.
\<close>

theorem postFrameCallbackDelayed_requests:
  assumes "nsecs_ok (now + delay)"
  shows "\<exists>s1. postFrameCallbackDelayed caller cb cb64 dat delay now s = Inr s1
          \<and> mset (mFrameCallbacks s1) =
              add_mset \<lparr>callback = cb, callback64 = cb64, data = dat, dueTime = now + delay\<rparr>
                (mset (mFrameCallbacks s))
          \<and> effects s1 = effects s @
               [if delay \<le> 0
                then (if caller = mThreadId s then ScheduleVsync
                      else SendMessage MSG_SCHEDULE_VSYNC)
                else SendMessageDelayed delay MSG_SCHEDULE_CALLBACKS]
          \<and> mRefreshRateCallbacks s1 = mRefreshRateCallbacks s
          \<and> mVsyncPeriod s1 = mVsyncPeriod s
          \<and> mLooper s1 = mLooper s
          \<and> mThreadId s1 = mThreadId s"
  using assms
  by (simp add: postFrameCallbackDelayed_def Let_def emit_def scheduleVsync_def pq_push_def)

text \<open>A scheduler owned by thread 1 with a callback due at 50 in its queue. At the clock
  reading 100: delay 0 on the owning thread, delay -3 on another thread, delay 5.\<close>

theorem postFrameCallbackDelayed_requests_witness:
  "let old = \<lparr>callback = 8, callback64 = nullptr, data = 3, dueTime = 50\<rparr>;
       s = (new_Choreographer 1 1)\<lparr>mFrameCallbacks := [old]\<rparr>
   in nsecs_ok (100 + 0) \<and> nsecs_ok (100 + (- 3)) \<and> nsecs_ok (100 + 5)
    \<and> postFrameCallbackDelayed 1 9 nullptr 4 0 100 s =
        Inr (s\<lparr>mFrameCallbacks :=
                  [old, \<lparr>callback = 9, callback64 = nullptr, data = 4, dueTime = 100\<rparr>],
                effects := [ScheduleVsync]\<rparr>)
    \<and> postFrameCallbackDelayed 2 9 nullptr 4 (- 3) 100 s =
        Inr (s\<lparr>mFrameCallbacks :=
                  [old, \<lparr>callback = 9, callback64 = nullptr, data = 4, dueTime = 97\<rparr>],
                effects := [SendMessage MSG_SCHEDULE_VSYNC]\<rparr>)
    \<and> postFrameCallbackDelayed 1 9 nullptr 4 5 100 s =
        Inr (s\<lparr>mFrameCallbacks :=
                  [old, \<lparr>callback = 9, callback64 = nullptr, data = 4, dueTime = 105\<rparr>],
                effects := [SendMessageDelayed 5 MSG_SCHEDULE_CALLBACKS]\<rparr>)"
proof -
  let ?s = "(new_Choreographer 1 1)\<lparr>mFrameCallbacks :=
      [\<lparr>callback = 8, callback64 = nullptr, data = 3, dueTime = 50\<rparr>]\<rparr>"
  have a: "nsecs_ok (100 + 0)" and b: "nsecs_ok (100 + (- 3))" and c: "nsecs_ok (100 + 5)"
    by (simp_all add: nsecs_ok_def)
  show ?thesis
    using a b c
      postFrameCallbackDelayed_requests [OF a, of 1 9 nullptr 4 ?s]
      postFrameCallbackDelayed_requests [OF b, of 2 9 nullptr 4 ?s]
      postFrameCallbackDelayed_requests [OF c, of 1 9 nullptr 4 ?s]
    by (simp add: Let_def postFrameCallbackDelayed_def new_Choreographer_def pq_push_def
        emit_def scheduleVsync_def)
qed

text \<open>
  C6 as the claim states it, for every delay, fails. The delay 9223372036854 ms
  (9223372036854000000 ns) is positive; posted at the clock reading 1000000 it overflows
  the signed sum of line 128, and the call does not come back with the callback queued
  and \<^verbatim>\<open>MSG_SCHEDULE_CALLBACKS\<close> sent. (Where the sum wraps, the due time is negative,
  the test of line 133 holds and a vsync is requested at once.)
\<close>

theorem postFrameCallbackDelayed_overflow_counterexample:
  "(0::int) < 9223372036854000000
   \<and> \<not> nsecs_ok (1000000 + 9223372036854000000)
   \<and> postFrameCallbackDelayed 1 9 nullptr 4 9223372036854000000 1000000 (new_Choreographer 1 1)
       \<noteq> Inr ((new_Choreographer 1 1)
           \<lparr>mFrameCallbacks :=
              [\<lparr>callback = 9, callback64 = nullptr, data = 4,
                dueTime = 1000000 + 9223372036854000000\<rparr>],
            effects := [SendMessageDelayed 9223372036854000000 MSG_SCHEDULE_CALLBACKS]\<rparr>)
   \<and> postFrameCallbackDelayed 1 9 nullptr 4 9223372036854000000 1000000 (new_Choreographer 1 1)
       = Inl SignedOverflow"
  by (simp add: postFrameCallbackDelayed_def nsecs_ok_def)

subsection \<open>The two handler forms\<close>

lemma invoke_length: "length (invoke timestamp c) \<le> 1"
  by (simp add: invoke_def)



subsection \<open>Refresh rate listeners\<close>

lemma registerRefreshRateCallback_eq:
  "registerRefreshRateCallback cb dat s =
     s\<lparr>mRefreshRateCallbacks := mRefreshRateCallbacks s @ [\<lparr>rr_callback = cb, rr_data = dat\<rparr>],
       effects := effects s @ [ToggleConfigEvents eConfigChangedDispatch]\<rparr>"
  by (simp add: registerRefreshRateCallback_def toggleConfigEvents_def emit_def)

lemma registerRefreshRateCallbacks_effects:
  "effects (registerRefreshRateCallbacks rs s) =
     effects s @ replicate (length rs) (ToggleConfigEvents eConfigChangedDispatch)"
proof (induction rs arbitrary: s)
  case Nil
  then show ?case by simp
next
  case (Cons r rs)
  obtain cb dat where r: "r = (cb, dat)" by (cases r)
  show ?case
    by (simp add: r Cons.IH registerRefreshRateCallback_eq replicate_app_Cons_same)
qed

lemma registerRefreshRateCallbacks_listeners:
  "mRefreshRateCallbacks (registerRefreshRateCallbacks rs s) =
     mRefreshRateCallbacks s @ map (\<lambda>(cb, dat). \<lparr>rr_callback = cb, rr_data = dat\<rparr>) rs"
proof (induction rs arbitrary: s)
  case Nil
  then show ?case by simp
next
  case (Cons r rs)
  obtain cb dat where r: "r = (cb, dat)" by (cases r)
  show ?case
    by (simp add: r Cons.IH registerRefreshRateCallback_eq)
qed

text \<open>
  C7, as the code has it. \<^verbatim>\<open>registerRefreshRateCallback\<close> appends the listener and
  calls \<^verbatim>\<open>toggleConfigEvents(eConfigChangedDispatch)\<close> on every call, whether listeners
  exist or not: a run of registrations issues the enable signal once for each of them.
\<close>

theorem registerRefreshRateCallback_enables_every_time:
  "registerRefreshRateCallback cb dat s =
     s\<lparr>mRefreshRateCallbacks := mRefreshRateCallbacks s @ [\<lparr>rr_callback = cb, rr_data = dat\<rparr>],
       effects := effects s @ [ToggleConfigEvents eConfigChangedDispatch]\<rparr>
   \<and> mRefreshRateCallbacks (registerRefreshRateCallbacks rs s) =
       mRefreshRateCallbacks s @ map (\<lambda>(cb, dat). \<lparr>rr_callback = cb, rr_data = dat\<rparr>) rs
   \<and> effects (registerRefreshRateCallbacks rs s) =
       effects s @ replicate (length rs) (ToggleConfigEvents eConfigChangedDispatch)"
  by (simp add: registerRefreshRateCallback_eq registerRefreshRateCallbacks_effects
      registerRefreshRateCallbacks_listeners)

text \<open>
  C7 as the claim states it fails: registering a second listener on a scheduler that has
  one issues the enable signal again.
\<close>

theorem registerRefreshRateCallback_second_counterexample:
  "mRefreshRateCallbacks (registerRefreshRateCallback 11 1 (new_Choreographer 1 1))
     = [\<lparr>rr_callback = 11, rr_data = 1\<rparr>]
   \<and> effects (registerRefreshRateCallback 11 1 (new_Choreographer 1 1))
     = [ToggleConfigEvents eConfigChangedDispatch]
   \<and> effects (registerRefreshRateCallback 12 2
        (registerRefreshRateCallback 11 1 (new_Choreographer 1 1)))
     = [ToggleConfigEvents eConfigChangedDispatch, ToggleConfigEvents eConfigChangedDispatch]"
  by (simp add: registerRefreshRateCallback_eq new_Choreographer_def)

lemma notify_same_period: "mVsyncPeriod s = vsyncPeriod \<Longrightarrow> notify vsyncPeriod cbs s = Inr s"
  by (induction cbs) simp_all

lemma notify_new_period:
  "mVsyncPeriod s \<noteq> vsyncPeriod \<Longrightarrow> rr_callback cb \<noteq> nullptr \<Longrightarrow>
     notify vsyncPeriod (cb # rest) s =
       Inr (s\<lparr>mVsyncPeriod := vsyncPeriod,
              effects := effects s @ [CallRefreshRate (rr_callback cb) vsyncPeriod (rr_data cb)]\<rparr>)"
  by (simp add: notify_same_period emit_def)

lemma notify_null_handler:
  "mVsyncPeriod s \<noteq> vsyncPeriod \<Longrightarrow> rr_callback cb = nullptr \<Longrightarrow>
     notify vsyncPeriod (cb # rest) s = Inl NullHandlerCall"
  by simp

text \<open>
  C1 at its failing input: two listeners registered on a fresh scheduler (stored period
  0) and a configuration change to the period 16666666. The stored period is assigned
  inside the loop, after the first call, so the test fails for the second listener: only
  the first listener is called.
\<close>

theorem dispatchConfigChanged_calls_first_listener_only:
  "mRefreshRateCallbacks (registerRefreshRateCallbacks [(11, 1), (12, 2)] (new_Choreographer 1 1))
     = [\<lparr>rr_callback = 11, rr_data = 1\<rparr>, \<lparr>rr_callback = 12, rr_data = 2\<rparr>]
   \<and> mVsyncPeriod (registerRefreshRateCallbacks [(11, 1), (12, 2)] (new_Choreographer 1 1)) = 0
   \<and> dispatchConfigChanged 16666666
        (registerRefreshRateCallbacks [(11, 1), (12, 2)] (new_Choreographer 1 1))
     = Inr ((registerRefreshRateCallbacks [(11, 1), (12, 2)] (new_Choreographer 1 1))
         \<lparr>mVsyncPeriod := 16666666,
          effects :=
            effects (registerRefreshRateCallbacks [(11, 1), (12, 2)] (new_Choreographer 1 1))
              @ [CallRefreshRate 11 16666666 1]\<rparr>)"
  by (simp add: registerRefreshRateCallback_eq new_Choreographer_def dispatchConfigChanged_def
      emit_def)

lemma length_remove_if: "length (remove_if pred xs) = length xs"
proof -
  have "length (filter (\<lambda>x. \<not> pred x) xs) \<le> length xs" by simp
  then show ?thesis by (simp add: remove_if_def Let_def)
qed

lemma unregisterRefreshRateCallback_effects:
  "effects (unregisterRefreshRateCallback cb s) =
     (if mRefreshRateCallbacks s = [] then effects s @ [ToggleConfigEvents eConfigChangedSuppress]
      else effects s)"
proof -
  have "remove_if (\<lambda>c. cb = rr_callback c) (mRefreshRateCallbacks s) = [] \<longleftrightarrow>
      mRefreshRateCallbacks s = []"
    using length_remove_if [of "\<lambda>c. cb = rr_callback c" "mRefreshRateCallbacks s"]
    by (metis length_0_conv)
  then show ?thesis
    by (simp add: unregisterRefreshRateCallback_def Let_def toggleConfigEvents_def emit_def)
qed

text \<open>
  C2 at its failing input: the only listener of a scheduler is unregistered. The vector
  keeps its element, no \<^verbatim>\<open>toggleConfigEvents(eConfigChangedSuppress)\<close> is issued, and the
  next configuration change still calls the handler.
\<close>

theorem unregisterRefreshRateCallback_erases_nothing:
  "unregisterRefreshRateCallback 11 (registerRefreshRateCallback 11 1 (new_Choreographer 1 1))
     = registerRefreshRateCallback 11 1 (new_Choreographer 1 1)
   \<and> mRefreshRateCallbacks
       (unregisterRefreshRateCallback 11 (registerRefreshRateCallback 11 1 (new_Choreographer 1 1)))
     = [\<lparr>rr_callback = 11, rr_data = 1\<rparr>]
   \<and> effects
       (unregisterRefreshRateCallback 11 (registerRefreshRateCallback 11 1 (new_Choreographer 1 1)))
     = [ToggleConfigEvents eConfigChangedDispatch]
   \<and> dispatchConfigChanged 16666666
       (unregisterRefreshRateCallback 11 (registerRefreshRateCallback 11 1 (new_Choreographer 1 1)))
     = Inr ((registerRefreshRateCallback 11 1 (new_Choreographer 1 1))
         \<lparr>mVsyncPeriod := 16666666,
          effects := [ToggleConfigEvents eConfigChangedDispatch, CallRefreshRate 11 16666666 1]\<rparr>)"
  by (simp add: registerRefreshRateCallback_eq new_Choreographer_def
      unregisterRefreshRateCallback_def remove_if_def dispatchConfigChanged_def emit_def)

subsection \<open>The re-check\<close>

lemma scheduleCallbacks_empty:
  "mFrameCallbacks s = [] \<Longrightarrow> scheduleCallbacks now s = Inl TopOfEmptyQueue"
  by (simp add: scheduleCallbacks_def)

text \<open>
  C4 at its failing input: a callback posted at 100 with delay 5 on a fresh scheduler, a
  vsync dispatched at 106, which drains it, and then the delayed message
  \<^verbatim>\<open>MSG_SCHEDULE_CALLBACKS\<close>. \<^verbatim>\<open>scheduleCallbacks\<close> reads \<^verbatim>\<open>top()\<close> of the empty
  queue; so it does on a scheduler nothing was ever posted to.
\<close>

theorem scheduleCallbacks_reads_top_of_empty_queue:
  "postFrameCallbackDelayed 1 9 nullptr 4 5 100 (new_Choreographer 1 1) =
     Inr ((new_Choreographer 1 1)
       \<lparr>mFrameCallbacks := [\<lparr>callback = 9, callback64 = nullptr, data = 4, dueTime = 105\<rparr>],
        effects := [SendMessageDelayed 5 MSG_SCHEDULE_CALLBACKS]\<rparr>)
   \<and> mFrameCallbacks (dispatchVsync 104 106 ((new_Choreographer 1 1)
       \<lparr>mFrameCallbacks := [\<lparr>callback = 9, callback64 = nullptr, data = 4, dueTime = 105\<rparr>],
        effects := [SendMessageDelayed 5 MSG_SCHEDULE_CALLBACKS]\<rparr>)) = []
   \<and> handleMessage MSG_SCHEDULE_CALLBACKS 107 (dispatchVsync 104 106 ((new_Choreographer 1 1)
       \<lparr>mFrameCallbacks := [\<lparr>callback = 9, callback64 = nullptr, data = 4, dueTime = 105\<rparr>],
        effects := [SendMessageDelayed 5 MSG_SCHEDULE_CALLBACKS]\<rparr>)) = Inl TopOfEmptyQueue
   \<and> scheduleCallbacks 107 (new_Choreographer 1 1) = Inl TopOfEmptyQueue"
  by (simp add: postFrameCallbackDelayed_def nsecs_ok_def new_Choreographer_def pq_push_def
      emit_def dispatchVsync_def drain.simps pq_pop_def handleMessage_def scheduleCallbacks_def
      invoke_def)

subsection \<open>The scheduler of a thread\<close>

lemma process_ok_initial: "process_ok initial_process"
  by (simp add: process_ok_def initial_process_def)

lemma getForThread_cached:
  "gChoreographer g tid \<noteq> nullptr \<Longrightarrow> getForThread tid looper result g = (gChoreographer g tid, g)"
  by (simp add: getForThread_def)

lemma getForThread_no_looper:
  "gChoreographer g tid = nullptr \<Longrightarrow> looper = nullptr \<Longrightarrow> getForThread tid looper result g = (nullptr, g)"
  by (simp add: getForThread_def)

lemma getForThread_new:
  "gChoreographer g tid = nullptr \<Longrightarrow> looper \<noteq> nullptr \<Longrightarrow>
     getForThread tid looper result g =
       (if result \<noteq> OK then nullptr else Suc (length (objects g)),
        g\<lparr>objects := objects g @ [new_Choreographer looper tid],
          gChoreographer := (gChoreographer g)(tid := Suc (length (objects g))),
          initialize_calls := initialize_calls g @ [(Suc (length (objects g)), result)]\<rparr>)"
  by (simp add: getForThread_def Let_def)

lemma getForThread_result_slot:
  "fst (getForThread tid looper result g) \<noteq> nullptr \<Longrightarrow>
     gChoreographer (snd (getForThread tid looper result g)) tid = fst (getForThread tid looper result g)"
  by (cases "gChoreographer g tid = nullptr"; cases "looper = nullptr")
     (simp_all add: getForThread_cached getForThread_no_looper getForThread_new split: if_splits)

lemma getForThread_keeps_slot:
  "gChoreographer g t \<noteq> nullptr \<Longrightarrow>
     gChoreographer (snd (getForThread tid looper result g)) t = gChoreographer g t"
  by (cases "gChoreographer g tid = nullptr"; cases "looper = nullptr")
     (auto simp: getForThread_cached getForThread_no_looper getForThread_new)

lemma process_ok_getForThread:
  assumes "process_ok g"
  shows "process_ok (snd (getForThread tid looper result g))"
proof (cases "gChoreographer g tid = nullptr \<and> looper \<noteq> nullptr")
  case False
  then consider "gChoreographer g tid \<noteq> nullptr" | "gChoreographer g tid = nullptr" "looper = nullptr"
    by auto
  then show ?thesis
    using assms by cases (simp_all add: getForThread_cached getForThread_no_looper)
next
  case True
  let ?p = "Suc (length (objects g))"
  have le: "gChoreographer g t \<le> length (objects g)" for t
    using assms by (simp add: process_ok_def)
  have inj: "gChoreographer g t = gChoreographer g u \<Longrightarrow> gChoreographer g t \<noteq> nullptr \<Longrightarrow> t = u" for t u
    using assms unfolding process_ok_def by blast
  have calls: "fst c \<le> length (objects g)" if "c \<in> set (initialize_calls g)" for c
    using assms that by (simp add: process_ok_def)
  have ne: "gChoreographer g t \<noteq> ?p" for t
    using le [of t] by simp
  let ?g' = "snd (getForThread tid looper result g)"
  have g': "?g' = g\<lparr>objects := objects g @ [new_Choreographer looper tid],
      gChoreographer := (gChoreographer g)(tid := ?p),
      initialize_calls := initialize_calls g @ [(?p, result)]\<rparr>"
    using True by (simp add: getForThread_new)
  have "gChoreographer ?g' t \<le> length (objects ?g')" for t
    using le [of t] by (simp add: g')
  moreover have "t = u"
    if "gChoreographer ?g' t = gChoreographer ?g' u" "gChoreographer ?g' t \<noteq> nullptr" for t u
    using that ne [of t] ne [of u] inj [of t u] by (simp add: g' split: if_splits)
  moreover have "fst c \<le> length (objects ?g')" if "c \<in> set (initialize_calls ?g')" for c
    using that calls [of c] by (auto simp: g')
  ultimately show ?thesis
    unfolding process_ok_def by blast
qed

lemma process_ok_getForThread_calls:
  "process_ok g \<Longrightarrow> process_ok (getForThread_calls cs g)"
proof (induction cs arbitrary: g)
  case Nil
  then show ?case by simp
next
  case (Cons c cs)
  obtain tid looper result where c: "c = (tid, looper, result)" by (cases c)
  show ?case
    using Cons.IH [OF process_ok_getForThread [OF Cons.prems, of tid looper result]]
    by (simp add: c)
qed

lemma getForThread_calls_keeps_slot:
  "gChoreographer g t \<noteq> nullptr \<Longrightarrow> gChoreographer (getForThread_calls cs g) t = gChoreographer g t"
proof (induction cs arbitrary: g)
  case Nil
  then show ?case by simp
next
  case (Cons c cs)
  obtain tid looper result where c: "c = (tid, looper, result)" by (cases c)
  have "gChoreographer (snd (getForThread tid looper result g)) t = gChoreographer g t"
    by (rule getForThread_keeps_slot [OF Cons.prems])
  with Cons.IH [of "snd (getForThread tid looper result g)"] Cons.prems show ?case
    by (simp add: c)
qed

lemma getForThread_other_thread:
  assumes ok: "process_ok g" and p: "gChoreographer g tid \<noteq> nullptr" and other: "tid' \<noteq> tid"
  shows "fst (getForThread tid' looper result g) \<noteq> gChoreographer g tid"
proof (cases "gChoreographer g tid' = nullptr")
  case False
  have "gChoreographer g tid' \<noteq> gChoreographer g tid"
    using ok False other unfolding process_ok_def by blast
  then show ?thesis by (simp add: getForThread_cached [OF False])
next
  case True
  have "gChoreographer g tid \<le> length (objects g)"
    using ok by (simp add: process_ok_def)
  then show ?thesis
    using True p by (cases "looper = nullptr") (auto simp: getForThread_no_looper getForThread_new)
qed

text \<open>
  C8, as the code has it. A thread that has no scheduler yet gets \<^verbatim>\<open>nullptr\<close> when it
  has no looper, and also when \<^verbatim>\<open>initialize()\<close> fails; with a looper and a successful
  \<^verbatim>\<open>initialize()\<close> it gets an object. Whenever a call returns an object, every later
  call from the same thread, whatever calls other threads make in between, returns the
  same object, and no call from another thread returns it.
\<close>

theorem getForThread_one_scheduler_per_thread:
  assumes ok: "process_ok g"
  shows "(gChoreographer g tid = nullptr \<and> looper = nullptr \<longrightarrow>
            fst (getForThread tid looper result g) = nullptr)
       \<and> (gChoreographer g tid = nullptr \<and> result \<noteq> OK \<longrightarrow>
            fst (getForThread tid looper result g) = nullptr)
       \<and> (gChoreographer g tid = nullptr \<and> looper \<noteq> nullptr \<and> result = OK \<longrightarrow>
            fst (getForThread tid looper result g) \<noteq> nullptr)
       \<and> (let p = fst (getForThread tid looper result g);
               g' = getForThread_calls cs (snd (getForThread tid looper result g))
           in p \<noteq> nullptr \<longrightarrow>
                fst (getForThread tid looper' result' g') = p
              \<and> (tid' \<noteq> tid \<longrightarrow> fst (getForThread tid' looper' result' g') \<noteq> p))"
proof -
  let ?p = "fst (getForThread tid looper result g)"
  let ?g1 = "snd (getForThread tid looper result g)"
  let ?g' = "getForThread_calls cs ?g1"
  have a: "?p = nullptr" if "gChoreographer g tid = nullptr" "looper = nullptr"
    using that by (simp add: getForThread_no_looper)
  have b: "?p = nullptr" if "gChoreographer g tid = nullptr" "result \<noteq> OK"
    using that by (cases "looper = nullptr") (simp_all add: getForThread_no_looper getForThread_new)
  have b': "?p \<noteq> nullptr" if "gChoreographer g tid = nullptr" "looper \<noteq> nullptr" "result = OK"
    using that by (simp add: getForThread_new)
  have c: "fst (getForThread tid looper' result' ?g') = ?p
      \<and> (tid' \<noteq> tid \<longrightarrow> fst (getForThread tid' looper' result' ?g') \<noteq> ?p)" if p: "?p \<noteq> nullptr"
  proof -
    have slot1: "gChoreographer ?g1 tid = ?p"
      by (rule getForThread_result_slot [OF p])
    have slot: "gChoreographer ?g' tid = ?p"
      using getForThread_calls_keeps_slot [of ?g1 tid cs] slot1 p by simp
    have ok': "process_ok ?g'"
      by (intro process_ok_getForThread_calls process_ok_getForThread ok)
    have "fst (getForThread tid looper' result' ?g') = ?p"
      using slot p by (simp add: getForThread_cached)
    moreover have "fst (getForThread tid' looper' result' ?g') \<noteq> ?p" if "tid' \<noteq> tid"
      using getForThread_other_thread [OF ok' _ that, of looper' result'] slot p by simp
    ultimately show ?thesis by simp
  qed
  show ?thesis
    using a b b' c by (simp add: Let_def)
qed

text \<open>Thread 1 with looper 7, then thread 2 with looper 8, from the initial process.\<close>

theorem getForThread_one_scheduler_per_thread_witness:
  "process_ok initial_process
   \<and> fst (getForThread 1 nullptr OK initial_process) = nullptr
   \<and> fst (getForThread 1 7 OK initial_process) = 1
   \<and> fst (getForThread 1 7 OK
        (getForThread_calls [(2, 8, OK)] (snd (getForThread 1 7 OK initial_process)))) = 1
   \<and> fst (getForThread 2 8 OK
        (getForThread_calls [(2, 8, OK)] (snd (getForThread 1 7 OK initial_process)))) = 2"
  using getForThread_one_scheduler_per_thread
    [OF process_ok_initial, of 1 7 OK "[(2, 8, OK)]" 7 OK 2]
  by (simp add: process_ok_def getForThread_def initial_process_def Let_def OK_def)

text \<open>
  C8 as the claim states it fails: thread 1 has a looper, \<^verbatim>\<open>initialize()\<close> returns -1,
  and the call returns \<^verbatim>\<open>nullptr\<close>; the next call from the thread returns an object,
  not what the first call returned.
\<close>

theorem getForThread_null_counterexample:
  "fst (getForThread 1 7 (- 1) initial_process) = nullptr
   \<and> fst (getForThread 1 7 OK (snd (getForThread 1 7 (- 1) initial_process))) = 1"
  by (simp add: getForThread_def initial_process_def Let_def OK_def)

lemma getForThread_initialize_calls:
  "c \<in> set (initialize_calls (snd (getForThread tid looper result g))) \<Longrightarrow>
     c \<in> set (initialize_calls g) \<or> length (objects g) < fst c"
  by (cases "gChoreographer g tid = nullptr"; cases "looper = nullptr")
     (auto simp: getForThread_cached getForThread_no_looper getForThread_new)

lemma getForThread_objects_grow:
  "length (objects g) \<le> length (objects (snd (getForThread tid looper result g)))"
  by (cases "gChoreographer g tid = nullptr"; cases "looper = nullptr")
     (auto simp: getForThread_cached getForThread_no_looper getForThread_new)

lemma getForThread_calls_initialize_calls:
  "c \<in> set (initialize_calls (getForThread_calls cs g)) \<Longrightarrow>
     c \<in> set (initialize_calls g) \<or> length (objects g) < fst c"
proof (induction cs arbitrary: g)
  case Nil
  then show ?case by simp
next
  case (Cons x cs)
  obtain tid looper result where x: "x = (tid, looper, result)" by (cases x)
  let ?g1 = "snd (getForThread tid looper result g)"
  from Cons.prems have "c \<in> set (initialize_calls (getForThread_calls cs ?g1))"
    by (simp add: x)
  from Cons.IH [OF this] show ?case
    using getForThread_initialize_calls [of c tid looper result g]
      getForThread_objects_grow [of g tid looper result]
    by auto
qed

text \<open>
  C10. The new object is stored in the thread's slot before the status of
  \<^verbatim>\<open>initialize()\<close> is tested. When \<^verbatim>\<open>initialize()\<close> fails, the call returns
  \<^verbatim>\<open>nullptr\<close> and the slot holds the object; every later call from the thread, whatever
  its looper and whatever other threads did in between, returns that object and changes
  nothing (no new object, no second \<^verbatim>\<open>initialize()\<close>), and no call of
  \<^verbatim>\<open>initialize()\<close> on the object has ever returned \<^verbatim>\<open>OK\<close>.
\<close>

theorem getForThread_failed_initialize_is_kept:
  assumes ok: "process_ok g"
    and empty: "gChoreographer g tid = nullptr"
    and looper: "looper \<noteq> nullptr"
    and failed: "result \<noteq> OK"
  shows "let p = Suc (length (objects g));
             g1 = snd (getForThread tid looper result g);
             g2 = getForThread_calls cs g1
         in fst (getForThread tid looper result g) = nullptr
          \<and> objects g1 = objects g @ [new_Choreographer looper tid]
          \<and> initialize_calls g1 = initialize_calls g @ [(p, result)]
          \<and> gChoreographer g1 tid = p
          \<and> getForThread tid looper' result' g2 = (p, g2)
          \<and> (p, OK) \<notin> set (initialize_calls g2)"
proof -
  let ?p = "Suc (length (objects g))"
  let ?g1 = "snd (getForThread tid looper result g)"
  let ?g2 = "getForThread_calls cs ?g1"
  note new = getForThread_new [OF empty looper, of result]
  have r: "fst (getForThread tid looper result g) = nullptr"
    using failed by (simp add: new)
  have objs: "objects ?g1 = objects g @ [new_Choreographer looper tid]"
    by (simp add: new)
  have calls: "initialize_calls ?g1 = initialize_calls g @ [(?p, result)]"
    by (simp add: new)
  have slot1: "gChoreographer ?g1 tid = ?p"
    by (simp add: new)
  have slot2: "gChoreographer ?g2 tid = ?p"
    using getForThread_calls_keeps_slot [of ?g1 tid cs] slot1 by simp
  have again: "getForThread tid looper' result' ?g2 = (?p, ?g2)"
    using getForThread_cached [of ?g2 tid looper' result'] slot2 by simp
  have never: "(?p, OK) \<notin> set (initialize_calls ?g2)"
  proof
    assume "(?p, OK) \<in> set (initialize_calls ?g2)"
    from getForThread_calls_initialize_calls [OF this]
    have "(?p, OK) \<in> set (initialize_calls g)"
      using failed by (simp add: calls objs)
    with ok have "?p \<le> length (objects g)"
      unfolding process_ok_def by fastforce
    then show False by simp
  qed
  show ?thesis
    using r objs calls slot1 again never by (simp add: Let_def)
qed

text \<open>Thread 1 with looper 7 and a failing \<^verbatim>\<open>initialize()\<close>, then thread 2, then
  thread 1 again.\<close>

theorem getForThread_failed_initialize_is_kept_witness:
  "process_ok initial_process
   \<and> gChoreographer initial_process 1 = nullptr
   \<and> fst (getForThread 1 7 (- 1) initial_process) = nullptr
   \<and> getForThread 1 7 OK
        (getForThread_calls [(2, 8, OK)] (snd (getForThread 1 7 (- 1) initial_process)))
      = (1, getForThread_calls [(2, 8, OK)] (snd (getForThread 1 7 (- 1) initial_process)))
   \<and> initialize_calls
        (getForThread_calls [(2, 8, OK)] (snd (getForThread 1 7 (- 1) initial_process)))
      = [(1, - 1), (2, OK)]"
proof -
  have empty: "gChoreographer initial_process 1 = nullptr"
    by (simp add: initial_process_def)
  have looper: "(7::nat) \<noteq> nullptr"
    by simp
  have failed: "(- 1::int) \<noteq> OK"
    by (simp add: OK_def)
  show ?thesis
    using getForThread_failed_initialize_is_kept
      [OF process_ok_initial empty looper failed, of "[(2, 8, OK)]" 7 OK]
    by (simp add: process_ok_def getForThread_def initial_process_def Let_def OK_def)
qed

end
